theory Spec2Isabelle
  imports Complex_Main
begin

section \<open>Tensors, parameters and errors\<close>

text \<open>
  The notebooks train small feed-forward classifiers with torch. A tensor's storage is a
  flat sequence of numbers (row-major); numbers are modelled as reals, so the rounding,
  the overflow and the non-finite values (inf, NaN) of the 32-bit floats are outside the
  model. A parameter tensor carries its gradient accumulator
  \<open>grad\<close>, which is absent (\<open>None\<close>) until a backward pass writes it.
\<close>

type_synonym tensor = "real list"

record Parameter =
  data :: tensor
  grad :: "tensor option"

text \<open>An image is a channels x height x width array; a batch pairs images with labels.\<close>

type_synonym image = "real list list list"
type_synonym batch = "image list \<times> int list"

datatype error =
  RuntimeError | IndexError | ValueError | StopIteration | NameError | ZeroDivisionError

definition bindE :: "error + 'a \<Rightarrow> ('a \<Rightarrow> error + 'b) \<Rightarrow> error + 'b" where
  "bindE m f = (case m of Inl e \<Rightarrow> Inl e | Inr v \<Rightarrow> f v)"

section \<open>Layers\<close>

text \<open>
  Modelled from the spec: the layer operations the models call (\<open>nn.Linear\<close>, \<open>F.relu\<close>,
  \<open>F.log_softmax\<close>, \<open>nn.Dropout\<close>) are torch's and not under src/. Section 4.1 names them:
  the affine transform \<open>y = xW + b\<close>, the rectified-linear nonlinearity and log-softmax;
  section 4.5 describes dropout. Each is given its mathematical definition.

  \<open>nn.Linear(i, o)\<close>: the layer object holds its sizes and refers to its weight (o x i) and
  bias (o) tensors, which live in the model's parameter list (\<open>model.parameters()\<close>); the
  optimizer refers to the same list, so \<open>weight\<close> and \<open>bias\<close> are positions in it.
\<close>

record Linear =
  in_features :: nat
  out_features :: nat
  weight :: nat
  bias :: nat

definition dot :: "tensor \<Rightarrow> tensor \<Rightarrow> real" where
  "dot w x = sum_list (map2 (*) w x)"

definition rows_of :: "nat \<Rightarrow> nat \<Rightarrow> tensor \<Rightarrow> tensor list" where
  "rows_of out inp W = map (\<lambda>k. take inp (drop (k * inp) W)) [0..<out]"

text \<open>The affine map \<open>y = x W\<^sup>T + b\<close> on every row; a row of the wrong width raises.\<close>

definition Linear_forward :: "Parameter list \<Rightarrow> Linear \<Rightarrow> tensor list \<Rightarrow> error + tensor list" where
  "Linear_forward ps l x =
     (if list_all (\<lambda>r. length r = in_features l) x
      then Inr (map (\<lambda>r. map2 (\<lambda>w b. dot w r + b)
                    (rows_of (out_features l) (in_features l) (data (ps ! weight l)))
                    (data (ps ! bias l))) x)
      else Inl RuntimeError)"

definition relu :: "tensor list \<Rightarrow> tensor list" where
  "relu x = map (map (max 0)) x"

text \<open>\<open>F.log_softmax(x, dim=1)\<close>: every row minus the logarithm of the sum of its exponentials.\<close>

definition log_softmax_row :: "tensor \<Rightarrow> tensor" where
  "log_softmax_row r = map (\<lambda>v. v - ln (sum_list (map exp r))) r"

definition log_softmax :: "tensor list \<Rightarrow> tensor list" where
  "log_softmax x = map log_softmax_row x"

section \<open>The Classifier of Part 5\<close>

record Classifier_rec =
  fc1 :: Linear
  fc2 :: Linear
  fc3 :: Linear
  fc4 :: Linear

text \<open>\<open>Classifier.__init__\<close>: four linear layers 784-256-128-64-10.\<close>

definition Classifier :: Classifier_rec where
  "Classifier =
     \<lparr>fc1 = \<lparr>in_features = 784, out_features = 256, weight = 0, bias = 1\<rparr>,
      fc2 = \<lparr>in_features = 256, out_features = 128, weight = 2, bias = 3\<rparr>,
      fc3 = \<lparr>in_features = 128, out_features = 64, weight = 4, bias = 5\<rparr>,
      fc4 = \<lparr>in_features = 64, out_features = 10, weight = 6, bias = 7\<rparr>\<rparr>"

text \<open>
  \<open>x.view(x.shape[0], -1)\<close>: every image flattened to one row. On a batch of no images the
  size \<open>-1\<close> stands for cannot be inferred and the call raises.
\<close>

definition view_flat :: "image list \<Rightarrow> error + tensor list" where
  "view_flat x =
     (if x = [] then Inl RuntimeError else Inr (map (\<lambda>img. concat (concat img)) x))"

definition Classifier_forward :: "Parameter list \<Rightarrow> image list \<Rightarrow> error + tensor list" where
  "Classifier_forward ps x =
     bindE (view_flat x) (\<lambda>x0.
     bindE (Linear_forward ps (fc1 Classifier) x0) (\<lambda>a1.
     bindE (Linear_forward ps (fc2 Classifier) (relu a1)) (\<lambda>a2.
     bindE (Linear_forward ps (fc3 Classifier) (relu a2)) (\<lambda>a3.
     bindE (Linear_forward ps (fc4 Classifier) (relu a3)) (\<lambda>a4.
     Inr (log_softmax a4))))))"

text \<open>The sizes of the eight parameter tensors as \<open>__init__\<close> allocates them.\<close>

definition Classifier_shapes :: "Parameter list \<Rightarrow> bool" where
  "Classifier_shapes ps =
     (map (\<lambda>p. length (data p)) ps = [256 * 784, 256, 128 * 256, 128, 64 * 128, 64, 10 * 64, 10])"

section \<open>The Sequential model of the training notebook\<close>





definition Sequential_shapes :: "Parameter list \<Rightarrow> bool" where
  "Sequential_shapes ps =
     (map (\<lambda>p. length (data p)) ps = [128 * 784, 128, 64 * 128, 64, 10 * 64, 10])"

text \<open>A row of log-probabilities: no entry above 0, exponentials summing to 1 within 1e-4.\<close>

definition log_probability_row :: "tensor \<Rightarrow> bool" where
  "log_probability_row r =
     (list_all (\<lambda>v. v \<le> 0) r \<and> \<bar>sum_list (map exp r) - 1\<bar> \<le> 1 / 10 ^ 4)"

section \<open>Loss and accuracy\<close>

text \<open>
  Modelled from the spec: torch's \<open>nll_loss\<close>, which \<open>criterion = nn.NLLLoss()\<close> calls, is
  library code that is not under src/. Following section 4.2: for each example the
  log-probability at the index of its true label is selected and negated, and the
  arithmetic mean over the batch is returned; a label outside \<open>[0, num_classes)\<close> fails with
  an IndexError-class condition. Batch and label counts that differ are a ValueError.
  The mean of an empty batch (not a number in torch) is \<open>0\<close> here, as \<open>x / 0 = 0\<close> in HOL.
\<close>

definition nll_loss :: "tensor list \<Rightarrow> int list \<Rightarrow> error + real" where
  "nll_loss input target =
     (if length input \<noteq> length target then Inl ValueError
      else if list_all2 (\<lambda>r t. 0 \<le> t \<and> t < int (length r)) input target
      then Inr (sum_list (map2 (\<lambda>r t. - (r ! nat t)) input target) / real (length input))
      else Inl IndexError)"

text \<open>
  Modelled from the spec: torch's \<open>topk\<close> is not under src/; \<open>ps.topk(1, dim=1)\<close> is the
  arg-max of section 4.5, the index of the largest entry of every row. A row with no entry
  has no largest one and raises. Among equal largest entries the lowest index is taken
  (torch leaves the choice open).
\<close>

fun first_index :: "real \<Rightarrow> tensor \<Rightarrow> nat" where
  "first_index m [] = 0"
| "first_index m (v # r) = (if v = m then 0 else Suc (first_index m r))"

definition argmax :: "tensor \<Rightarrow> nat" where
  "argmax r = first_index (Max (set r)) r"

definition topk1 :: "tensor list \<Rightarrow> error + nat list" where
  "topk1 x = (if list_all (\<lambda>r. r \<noteq> []) x then Inr (map argmax x) else Inl RuntimeError)"

text \<open>
  The lines both validation blocks share, on the log-probabilities \<open>out\<close> and labels \<open>lbl\<close>
  they are given:
  \<^verbatim>\<open>
  ps = torch.exp(out)
  top_p, top_class = ps.topk(1, dim=1)
  equals = top_class == lbl.view(*top_class.shape)
  accuracy = torch.mean(equals.type(torch.FloatTensor))
  \<close>
  \<open>view\<close> raises when the label count differs from the row count.
\<close>

definition equals_mean :: "nat list \<Rightarrow> int list \<Rightarrow> error + real" where
  "equals_mean topclass lbl =
     (if length lbl \<noteq> length topclass then Inl RuntimeError
      else Inr (sum_list (map2 (\<lambda>c l. if int c = l then 1 else 0) topclass lbl)
                / real (length topclass)))"

definition batch_accuracy :: "tensor list \<Rightarrow> int list \<Rightarrow> error + real" where
  "batch_accuracy out lbl =
     bindE (topk1 (map (map exp) out)) (\<lambda>topclass. equals_mean topclass lbl)"

text \<open>
  The evaluation sweep in the words of the spec (section 4.5): every batch of the held-out
  source goes through the forward pass, the arg-max class of each example is compared
  with its label, and the fraction of matches over all examples is the accuracy.
\<close>

definition matches :: "tensor list \<Rightarrow> int list \<Rightarrow> nat" where
  "matches out lbl = length (filter (\<lambda>(r, l). int (argmax r) = l) (zip out lbl))"

fun sweep_counts :: "Parameter list \<Rightarrow> batch list \<Rightarrow> error + nat \<times> nat" where
  "sweep_counts ps [] = Inr (0, 0)"
| "sweep_counts ps ((images, labels) # bs) =
     bindE (Classifier_forward ps images) (\<lambda>out.
     bindE (sweep_counts ps bs) (\<lambda>(m, n).
       Inr (matches out labels + m, length labels + n)))"

definition sweep_accuracy :: "Parameter list \<Rightarrow> batch list \<Rightarrow> error + real" where
  "sweep_accuracy ps testloader =
     bindE (sweep_counts ps testloader) (\<lambda>(m, n). Inr (real m / real n))"

section \<open>Gradient accumulators and the optimizer\<close>

text \<open>
  Modelled from the spec: the gradient engine (\<open>loss.backward()\<close>) and the optimizer's
  \<open>zero_grad()\<close> and \<open>step()\<close> are torch's and not under src/. Following sections 4.3 and
  4.4: \<open>backward\<close> writes into every parameter's accumulator the partial derivatives of the
  loss, adding to a value that is already there; \<open>zero_grad\<close> resets every accumulator that
  is present to zero; \<open>step\<close> of plain stochastic descent updates \<open>p \<leftarrow> p - \<alpha> g\<close> for every
  parameter with a gradient. The derivatives themselves come from the engine: \<open>g i j\<close> is
  the derivative with respect to entry \<open>j\<close> of parameter \<open>i\<close>.
\<close>

definition zero_param :: "Parameter \<Rightarrow> Parameter" where
  "zero_param p = p\<lparr>grad := map_option (map (\<lambda>_. 0)) (grad p)\<rparr>"

definition zero_grad :: "Parameter list \<Rightarrow> Parameter list" where
  "zero_grad ps = map zero_param ps"

definition gradient_of :: "(nat \<Rightarrow> nat \<Rightarrow> real) \<Rightarrow> Parameter list \<Rightarrow> tensor list" where
  "gradient_of g ps = map (\<lambda>(i, p). map (g i) [0..<length (data p)]) (enumerate 0 ps)"

definition accumulate :: "tensor \<Rightarrow> Parameter \<Rightarrow> Parameter" where
  "accumulate d p = p\<lparr>grad := Some (case grad p of None \<Rightarrow> d | Some a \<Rightarrow> map2 (+) a d)\<rparr>"

definition backward :: "(nat \<Rightarrow> nat \<Rightarrow> real) \<Rightarrow> Parameter list \<Rightarrow> Parameter list" where
  "backward g ps = map2 accumulate (gradient_of g ps) ps"



text \<open>Every accumulator that is present has the size of its parameter.\<close>

definition grads_shaped :: "Parameter list \<Rightarrow> bool" where
  "grads_shaped ps =
     list_all (\<lambda>p. case grad p of None \<Rightarrow> True | Some a \<Rightarrow> length a = length (data p)) ps"

text \<open>An accumulator is clear when it is absent or holds only zeros.\<close>

definition clear :: "tensor option \<Rightarrow> bool" where
  "clear a = (case a of None \<Rightarrow> True | Some d \<Rightarrow> list_all (\<lambda>v. v = 0) d)"

section \<open>The Network with dropout of Part 5\<close>

record Network_rec = Classifier_rec +
  dropout_p :: real

text \<open>\<open>Network.__init__\<close>: the Classifier's layers and \<open>nn.Dropout(p=0.2)\<close>.\<close>

definition Network :: Network_rec where
  "Network =
     \<lparr>fc1 = \<lparr>in_features = 784, out_features = 256, weight = 0, bias = 1\<rparr>,
      fc2 = \<lparr>in_features = 256, out_features = 128, weight = 2, bias = 3\<rparr>,
      fc3 = \<lparr>in_features = 128, out_features = 64, weight = 4, bias = 5\<rparr>,
      fc4 = \<lparr>in_features = 64, out_features = 10, weight = 6, bias = 7\<rparr>,
      dropout_p = 2 / 10\<rparr>"

text \<open>
  \<open>self.dropout(x)\<close>. In train-mode the unit at row \<open>i\<close>, column \<open>j\<close> is kept and rescaled by
  \<open>1 / (1 - p)\<close> when the random draw \<open>keep i j\<close> says so and zeroed otherwise; in eval-mode
  the input passes unchanged. The draws of a forward pass are an input of the model:
  \<open>draw k\<close> belongs to the \<open>k\<close>-th dropout call.
\<close>

type_synonym draw = "nat \<Rightarrow> nat \<Rightarrow> nat \<Rightarrow> bool"

definition dropout :: "real \<Rightarrow> bool \<Rightarrow> (nat \<Rightarrow> nat \<Rightarrow> bool) \<Rightarrow> tensor list \<Rightarrow> tensor list" where
  "dropout p train keep x =
     (if train
      then map (\<lambda>(i, r). map (\<lambda>(j, v). if keep i j then v / (1 - p) else 0) (enumerate 0 r))
             (enumerate 0 x)
      else x)"

definition Network_forward :: "Parameter list \<Rightarrow> bool \<Rightarrow> draw \<Rightarrow> image list \<Rightarrow> error + tensor list" where
  "Network_forward ps train draw x =
     bindE (view_flat x) (\<lambda>x0.
     bindE (Linear_forward ps (fc1 Network) x0) (\<lambda>a1.
     bindE (Linear_forward ps (fc2 Network)
              (dropout (dropout_p Network) train (draw 0) (relu a1))) (\<lambda>a2.
     bindE (Linear_forward ps (fc3 Network)
              (dropout (dropout_p Network) train (draw 1) (relu a2))) (\<lambda>a3.
     bindE (Linear_forward ps (fc4 Network)
              (dropout (dropout_p Network) train (draw 2) (relu a3))) (\<lambda>a4.
     Inr (log_softmax a4))))))"

section \<open>Training sessions\<close>

text \<open>
  What a training cell reads and writes: the model's parameters, the optimizer's own state,
  the mode flag \<open>model.training\<close> (a module starts in train-mode), the Python variables
  \<open>running_loss\<close>, \<open>output\<close> and \<open>labels\<close> (\<open>output_var\<close> and \<open>labels_var\<close>, unbound until
  first assigned) and the values printed. A log is kept beside them: \<open>trace\<close>, the calls
  made to the model, the gradient engine and the optimizer, in order. A forward pass is
  logged with the phase it belongs to and the mode flag it ran under, a backward pass
  with the accumulators it found, the gradient of its batch and the accumulators it left.
  \<open>op_of\<close> forgets the tensors of a logged call.
\<close>

datatype phase = TrainingStep | Evaluation

datatype call =
    ZeroGrad
  | Forward phase bool
  | Backward "tensor option list" "tensor list" "tensor option list"
  | Step

datatype op = ZeroGradOp | ForwardOp phase bool | BackwardOp | StepOp

fun op_of :: "call \<Rightarrow> op" where
  "op_of ZeroGrad = ZeroGradOp"
| "op_of (Forward ph m) = ForwardOp ph m"
| "op_of (Backward found g left) = BackwardOp"
| "op_of Step = StepOp"

text \<open>
  A logged backward pass that found only clear accumulators and left the gradient of its
  batch alone in them.
\<close>

fun call_ok :: "call \<Rightarrow> bool" where
  "call_ok (Backward found g left) = (list_all clear found \<and> left = map Some g)"
| "call_ok c = True"

record 'o session =
  params :: "Parameter list"
  opt_state :: 'o
  training :: bool
  running_loss :: real
  output_var :: "tensor list option"
  labels_var :: "int list option"
  printed :: "real list"
  trace :: "call list"

text \<open>
  A model as its constructor leaves it: parameter values \<open>init\<close> (drawn at random by torch)
  with no gradient yet. The session of a cell that has just built its model and optimizer.
\<close>

definition fresh_parameters :: "tensor list \<Rightarrow> Parameter list" where
  "fresh_parameters init = map (\<lambda>d. \<lparr>data = d, grad = None\<rparr>) init"

definition fresh_session :: "tensor list \<Rightarrow> 'o \<Rightarrow> 'o session" where
  "fresh_session init st =
     \<lparr>params = fresh_parameters init, opt_state = st, training = True,
      running_loss = 0, output_var = None, labels_var = None, printed = [], trace = []\<rparr>"

text \<open>
  The calls a cell makes, each as a step on the session that logs itself: \<open>model(x)\<close> in a
  phase, where \<open>forward\<close> is the model's forward pass on \<open>x\<close> given the parameters and the
  mode flag; \<open>loss.backward()\<close>, where \<open>g\<close> holds the derivatives of the loss;
  \<open>optimizer.zero_grad()\<close>; \<open>optimizer.step()\<close> of \<open>optim.SGD\<close>; \<open>model.train()\<close>,
  \<open>model.eval()\<close> and \<open>print\<close>.
\<close>

definition model_call :: "phase \<Rightarrow> (Parameter list \<Rightarrow> bool \<Rightarrow> error + tensor list) \<Rightarrow> 'o session
    \<Rightarrow> error + tensor list \<times> 'o session" where
  "model_call ph forward s =
     bindE (forward (params s) (training s))
       (\<lambda>out. Inr (out, s\<lparr>trace := trace s @ [Forward ph (training s)]\<rparr>))"

definition loss_backward :: "(nat \<Rightarrow> nat \<Rightarrow> real) \<Rightarrow> 'o session \<Rightarrow> 'o session" where
  "loss_backward g s =
     s\<lparr>params := backward g (params s),
       trace := trace s
         @ [Backward (map grad (params s)) (gradient_of g (params s))
              (map grad (backward g (params s)))]\<rparr>"

definition optimizer_zero_grad :: "'o session \<Rightarrow> 'o session" where
  "optimizer_zero_grad s = s\<lparr>params := zero_grad (params s), trace := trace s @ [ZeroGrad]\<rparr>"


definition model_train :: "'o session \<Rightarrow> 'o session" where
  "model_train s = s\<lparr>training := True\<rparr>"

definition model_eval :: "'o session \<Rightarrow> 'o session" where
  "model_eval s = s\<lparr>training := False\<rparr>"

definition print_value :: "real \<Rightarrow> 'o session \<Rightarrow> 'o session" where
  "print_value v s = s\<lparr>printed := printed s @ [v]\<rparr>"

text \<open>A loop body run over a sequence; the first error ends the loop, as the exception would.\<close>

fun foldE :: "('s \<Rightarrow> 'a \<Rightarrow> error + 's) \<Rightarrow> 's \<Rightarrow> 'a list \<Rightarrow> error + 's" where
  "foldE f s [] = Inr s"
| "foldE f s (x # xs) = bindE (f s x) (\<lambda>s'. foldE f s' xs)"


subsection \<open>The training cell of the training notebook\<close>




subsection \<open>The optimizer of Part 5\<close>

text \<open>
  \<open>optim.Adam(model.parameters(), lr=0.003)\<close>: the arithmetic of Adam is the library's and is
  taken as a parameter. \<open>update_rule st i j v dv\<close> is the new value of entry \<open>j\<close> of parameter
  \<open>i\<close>, from the optimizer's state, the old value and the gradient entry; \<open>next_state\<close> is
  the state the step leaves. A parameter with no gradient is skipped.
\<close>

record 'o Optimizer =
  update_rule :: "'o \<Rightarrow> nat \<Rightarrow> nat \<Rightarrow> real \<Rightarrow> real \<Rightarrow> real"
  next_state :: "'o \<Rightarrow> Parameter list \<Rightarrow> 'o"

definition optimizer_step :: "'o Optimizer \<Rightarrow> 'o \<Rightarrow> Parameter list \<Rightarrow> Parameter list" where
  "optimizer_step opt st ps =
     map (\<lambda>(i, p). case grad p of
                      None \<Rightarrow> p
                    | Some d \<Rightarrow> p\<lparr>data := map (\<lambda>(j, v, dv). update_rule opt st i j v dv)
                                            (enumerate 0 (zip (data p) d))\<rparr>)
       (enumerate 0 ps)"

definition optimizer_step_call :: "'o Optimizer \<Rightarrow> 'o session \<Rightarrow> 'o session" where
  "optimizer_step_call opt s =
     s\<lparr>params := optimizer_step opt (opt_state s) (params s),
       opt_state := next_state opt (opt_state s) (params s),
       trace := trace s @ [Step]\<rparr>"

subsection \<open>The training cell of the Classifier\<close>


definition Classifier_validation :: "'o session \<Rightarrow> batch list \<Rightarrow> error + 'o session" where
  "Classifier_validation s testloader =
     (case testloader of
        [] \<Rightarrow> Inl StopIteration
      | (testset, testlabels) # _ \<Rightarrow>
          bindE (model_call Evaluation (\<lambda>ps train. Classifier_forward ps testset) s)
            (\<lambda>(test_out, s1).
          bindE (batch_accuracy test_out testlabels) (\<lambda>accuracy.
            Inr (print_value accuracy s1))))"



subsection \<open>The training cell of the Network with dropout\<close>

text \<open>
  \<^verbatim>\<open>
  model.train()
  for e in range(epochs):
      running_loss = 0
      for images, labels in trainloader:
          optimizer.zero_grad()
          output = model(images)
          loss = criterion(output,labels)
          loss.backward()
          optimizer.step()
          running_loss += loss.item()
      else:
          model.eval()
          images, label = next(iter(testloader))
          test = model(images)
          test_ps = torch.exp(output)
          top_p, top_class = test_ps.topk(1, dim=1)
          equals = top_class == labels.view(*top_class.shape)
          accuracy = torch.mean(equals.type(torch.FloatTensor))
          print(f'Accuracy: {accuracy.item()*100}%')
  \<close>
  Here the loader of epoch \<open>e\<close> yields every batch together with the dropout draws of its
  forward pass, and the engine is given the mode and the draws as well. In eval-mode no
  draw is made, so the forward pass of the validation block is given \<open>no_draw\<close>.
\<close>

type_synonym dropout_engine =
  "Parameter list \<Rightarrow> bool \<Rightarrow> draw \<Rightarrow> image list \<Rightarrow> int list \<Rightarrow> nat \<Rightarrow> nat \<Rightarrow> real"

definition no_draw :: draw where
  "no_draw = (\<lambda>k i j. True)"

definition Network_train_step :: "'o Optimizer \<Rightarrow> dropout_engine \<Rightarrow> 'o session \<Rightarrow> batch \<times> draw
    \<Rightarrow> error + 'o session" where
  "Network_train_step opt autograd s b =
     (case b of ((images, lbl), draw) \<Rightarrow>
        let s1 = optimizer_zero_grad (s\<lparr>labels_var := Some lbl\<rparr>) in
        bindE (model_call TrainingStep (\<lambda>ps train. Network_forward ps train draw images) s1)
          (\<lambda>(out, s2).
        bindE (nll_loss out lbl) (\<lambda>loss.
          let s3 = s2\<lparr>output_var := Some out\<rparr>;
              s4 = loss_backward (autograd (params s3) (training s3) draw images lbl) s3;
              s5 = optimizer_step_call opt s4
          in Inr (s5\<lparr>running_loss := running_loss s5 + loss\<rparr>))))"

definition Network_validation :: "'o session \<Rightarrow> batch list \<Rightarrow> error + 'o session" where
  "Network_validation s testloader =
     (let s1 = model_eval s in
      case testloader of
        [] \<Rightarrow> Inl StopIteration
      | (images, label) # _ \<Rightarrow>
          bindE (model_call Evaluation (\<lambda>ps train. Network_forward ps train no_draw images) s1)
            (\<lambda>(test, s2).
            case output_var s2 of
              None \<Rightarrow> Inl NameError
            | Some out \<Rightarrow>
                bindE (topk1 (map (map exp) out)) (\<lambda>topclass.
                  case labels_var s2 of
                    None \<Rightarrow> Inl NameError
                  | Some lbl \<Rightarrow>
                      bindE (equals_mean topclass lbl) (\<lambda>accuracy.
                        Inr (print_value accuracy s2)))))"

definition Network_epoch :: "'o Optimizer \<Rightarrow> dropout_engine \<Rightarrow> (nat \<Rightarrow> (batch \<times> draw) list)
    \<Rightarrow> (nat \<Rightarrow> batch list) \<Rightarrow> 'o session \<Rightarrow> nat \<Rightarrow> error + 'o session" where
  "Network_epoch opt autograd trainloader testloader s e =
     bindE (foldE (Network_train_step opt autograd) (s\<lparr>running_loss := 0\<rparr>) (trainloader e))
       (\<lambda>s1. Network_validation s1 (testloader e))"

definition Network_training :: "'o Optimizer \<Rightarrow> dropout_engine \<Rightarrow> tensor list \<Rightarrow> 'o \<Rightarrow> nat
    \<Rightarrow> (nat \<Rightarrow> (batch \<times> draw) list) \<Rightarrow> (nat \<Rightarrow> batch list) \<Rightarrow> error + 'o session" where
  "Network_training opt autograd init st epochs trainloader testloader =
     foldE (Network_epoch opt autograd trainloader testloader)
       (model_train (fresh_session init st)) [0..<epochs]"

section \<open>Well-formed inputs\<close>

text \<open>
  A batch the models accept: it holds at least one image, every image flattens to 784
  features, there is one label per image, and every label is one of the ten classes. A
  test loader whose iterator yields such a batch first.
\<close>

definition valid_batch :: "batch \<Rightarrow> bool" where
  "valid_batch b =
     (case b of (images, lbl) \<Rightarrow>
        images \<noteq> [] \<and> list_all (\<lambda>img. length (concat (concat img)) = 784) images
        \<and> length lbl = length images \<and> list_all (\<lambda>t. 0 \<le> t \<and> t < 10) lbl)"

definition valid_testloader :: "batch list \<Rightarrow> bool" where
  "valid_testloader bs = (case bs of [] \<Rightarrow> False | b # _ \<Rightarrow> valid_batch b)"

text \<open>
  The variables \<open>output\<close> and \<open>labels\<close> are bound to ten-column rows and as many labels.
\<close>

definition vars_bound :: "'o session \<Rightarrow> bool" where
  "vars_bound s =
     (case output_var s of
        None \<Rightarrow> False
      | Some out \<Rightarrow>
          (case labels_var s of
             None \<Rightarrow> False
           | Some lbl \<Rightarrow> list_all (\<lambda>r. length r = 10) out \<and> length lbl = length out))"

section \<open>Example inputs\<close>

text \<open>
  Initial parameter values that are all zero, and those of a Classifier that are zero but
  for the last bias, which favours class 0: that network predicts class 0 for every
  image. A blank 1 x 28 x 28 image, a batch of 64 of them labelled 0, and what a test
  loader of two batches, labelled 0 and 1, yields when the first comes first.
\<close>

definition zero_init :: "nat list \<Rightarrow> tensor list" where
  "zero_init ns = map (\<lambda>n. replicate n 0) ns"

definition class0_init :: "tensor list" where
  "class0_init =
     zero_init [256 * 784, 256, 128 * 256, 128, 64 * 128, 64, 10 * 64] @ [1 # replicate 9 0]"

definition class0_parameters :: "Parameter list" where
  "class0_parameters = fresh_parameters class0_init"

definition class0_session :: "unit session" where
  "class0_session = fresh_session class0_init ()"

definition blank_image :: image where
  "blank_image = [replicate 28 (replicate 28 0)]"

definition blank_batch :: batch where
  "blank_batch = (replicate 64 blank_image, replicate 64 0)"

definition ordered_testloader :: "batch list" where
  "ordered_testloader =
     [(replicate 64 blank_image, replicate 64 0), (replicate 64 blank_image, replicate 64 1)]"



text \<open>
  For the Network's cell: a gradient engine that returns zero derivatives, dropout draws
  that keep every unit, and the session in which the cell starts from zero parameters. An
  optimizer with the update \<open>v - 0.003 dv\<close> and no state serves both cells of Part 5.
\<close>

definition zero_dropout_engine :: dropout_engine where
  "zero_dropout_engine = (\<lambda>ps train draw images lbl i j. 0)"

definition descent_optimizer :: "unit Optimizer" where
  "descent_optimizer =
     \<lparr>update_rule = (\<lambda>st i j v dv. v - 3 / 1000 * dv), next_state = (\<lambda>st ps. st)\<rparr>"

definition keep_all :: draw where
  "keep_all = (\<lambda>k i j. True)"

definition Network_fresh :: "unit session" where
  "Network_fresh =
     model_train
       (fresh_session (zero_init [256 * 784, 256, 128 * 256, 128, 64 * 128, 64, 10 * 64, 10]) ())"

section \<open>Properties of the layers\<close>

lemma length_rows_of: "length (rows_of out inp W) = out"
  by (simp add: rows_of_def)

lemma Linear_forward_ok:
  assumes "list_all (\<lambda>r. length r = in_features l) x"
    and "length (data (ps ! bias l)) = out_features l"
  shows "\<exists>y. Linear_forward ps l x = Inr y \<and> length y = length x
           \<and> list_all (\<lambda>r. length r = out_features l) y"
  using assms by (simp add: Linear_forward_def length_rows_of list_all_iff)

lemma relu_widths: "list_all (\<lambda>r. length r = n) y \<Longrightarrow> list_all (\<lambda>r. length r = n) (relu y)"
  by (simp add: relu_def list_all_iff)

lemma length_relu: "length (relu y) = length y"
  by (simp add: relu_def)

lemma sum_list_exp_nonneg: "0 \<le> sum_list (map exp (r::real list))"
  by (induction r) (auto intro: add_nonneg_nonneg)

lemma sum_list_exp_pos: "r \<noteq> [] \<Longrightarrow> 0 < sum_list (map exp (r::real list))"
  using sum_list_exp_nonneg by (cases r) (auto intro: add_pos_nonneg)

lemma exp_le_sum_list: "(v::real) \<in> set r \<Longrightarrow> exp v \<le> sum_list (map exp r)"
  using sum_list_exp_nonneg by (induction r) (auto simp: add_increasing add_increasing2)

lemma log_softmax_row_nonpos:
  assumes "v \<in> set (log_softmax_row r)"
  shows "v \<le> 0"
proof -
  from assms obtain u where u: "u \<in> set r" and v: "v = u - ln (sum_list (map exp r))"
    by (auto simp: log_softmax_row_def)
  have "exp u \<le> sum_list (map exp r)" using u by (rule exp_le_sum_list)
  then have "ln (exp u) \<le> ln (sum_list (map exp r))"
    by (subst ln_le_cancel_iff) (auto intro: less_le_trans [OF exp_gt_zero])
  then show ?thesis using v by simp
qed

lemma log_softmax_row_sum:
  assumes "r \<noteq> []"
  shows "sum_list (map exp (log_softmax_row r)) = 1"
proof -
  let ?S = "sum_list (map exp r)"
  have pos: "0 < ?S" using assms by (rule sum_list_exp_pos)
  have "map exp (log_softmax_row r) = map (\<lambda>v. exp v / ?S) r"
    using pos by (simp add: log_softmax_row_def exp_diff)
  then have "sum_list (map exp (log_softmax_row r)) = sum_list (map (\<lambda>v. exp v * (1 / ?S)) r)"
    by simp
  also have "\<dots> = ?S * (1 / ?S)"
    by (rule sum_list_mult_const)
  finally show ?thesis using pos by simp
qed

lemma log_softmax_row_valid: "r \<noteq> [] \<Longrightarrow> log_probability_row (log_softmax_row r)"
  using log_softmax_row_nonpos [of _ r] log_softmax_row_sum [of r]
  by (auto simp: log_probability_row_def list_all_iff log_softmax_row_def)

lemma log_softmax_rows:
  assumes "list_all (\<lambda>r. length r = n) y" and "0 < n"
  shows "list_all (\<lambda>r. length r = n \<and> log_probability_row r) (log_softmax y)"
proof -
  have "length (log_softmax_row r) = n \<and> log_probability_row (log_softmax_row r)"
    if "r \<in> set y" for r
  proof -
    have n: "length r = n" using assms(1) that by (simp add: list_all_iff)
    then have "r \<noteq> []" using assms(2) by auto
    then show ?thesis using n log_softmax_row_valid [of r] by (simp add: log_softmax_row_def)
  qed
  then show ?thesis by (simp add: list_all_iff log_softmax_def)
qed

lemma shapes_nth:
  assumes "map (\<lambda>p. length (data p)) ps = ns" and "i < length ns"
  shows "length (data (ps ! i)) = ns ! i"
proof -
  have "length ps = length ns" using assms(1) by (metis length_map)
  then have "map (\<lambda>p. length (data p)) ps ! i = length (data (ps ! i))"
    using assms(2) by simp
  then show ?thesis using assms(1) by simp
qed

lemma view_flat_ok: "x \<noteq> [] \<Longrightarrow> view_flat x = Inr (map (\<lambda>img. concat (concat img)) x)"
  by (simp add: view_flat_def)

lemma view_flat_widths:
  "list_all (\<lambda>img. length (concat (concat img)) = n) x \<Longrightarrow>
   list_all (\<lambda>r. length r = n) (map (\<lambda>img. concat (concat img)) x)"
  by (simp add: list_all_iff)



lemma lens_fresh_parameters:
  "map (\<lambda>p. length (data p)) (fresh_parameters init) = map length init"
  by (simp add: fresh_parameters_def comp_def)

lemma zero_init_lengths: "map length (zero_init ns) = ns"
  by (simp add: zero_init_def comp_def)

lemma Classifier_shapes_zero:
  "Classifier_shapes
     (fresh_parameters (zero_init [256 * 784, 256, 128 * 256, 128, 64 * 128, 64, 10 * 64, 10]))"
  by (simp add: Classifier_shapes_def lens_fresh_parameters zero_init_lengths)

lemma Sequential_shapes_zero:
  "Sequential_shapes (fresh_parameters (zero_init [128 * 784, 128, 64 * 128, 64, 10 * 64, 10]))"
  by (simp add: Sequential_shapes_def lens_fresh_parameters zero_init_lengths)

lemma blank_image_width: "length (concat (concat blank_image)) = 784"
  by (simp add: blank_image_def length_concat sum_list_replicate)

section \<open>Properties of the accuracy computation\<close>

lemma dot_zero: "\<forall>v\<in>set w. v = 0 \<Longrightarrow> dot w r = 0"
  unfolding dot_def
proof (induction w arbitrary: r)
  case Nil then show ?case by simp
next
  case (Cons a w) then show ?case by (cases r) auto
qed

lemma rows_of_zero: "\<forall>v\<in>set W. v = 0 \<Longrightarrow> w \<in> set (rows_of out inp W) \<Longrightarrow> \<forall>v\<in>set w. v = 0"
  by (auto simp: rows_of_def dest!: in_set_takeD in_set_dropD)

lemma map2_const: "length ws = length b \<Longrightarrow> \<forall>w\<in>set ws. f w = 0 \<Longrightarrow> map2 (\<lambda>w (b::real). f w + b) ws b = b"
  by (induction ws b rule: list_induct2) auto

lemma Linear_forward_zero:
  assumes "\<forall>v\<in>set (data (ps ! weight l)). v = 0"
    and "length (data (ps ! bias l)) = out_features l"
    and "list_all (\<lambda>r. length r = in_features l) x"
  shows "Linear_forward ps l x = Inr (map (\<lambda>_. data (ps ! bias l)) x)"
proof -
  have "map2 (\<lambda>w b. dot w r + b)
          (rows_of (out_features l) (in_features l) (data (ps ! weight l)))
          (data (ps ! bias l)) = data (ps ! bias l)" for r
    using assms(1,2) rows_of_zero dot_zero
    by (intro map2_const) (auto simp: length_rows_of)
  then show ?thesis using assms(3) by (simp add: Linear_forward_def)
qed

lemma argmax_exp: "r \<noteq> [] \<Longrightarrow> argmax (map exp r) = argmax r"
proof -
  assume ne: "r \<noteq> []"
  have fi: "first_index (exp m) (map exp r) = first_index m r" for m
    by (induction r) auto
  have "Max (set (map exp r)) = exp (Max (set r))"
    using ne mono_Max_commute [of exp "set r"] by (simp add: mono_def)
  then show ?thesis by (simp add: argmax_def fi)
qed

lemma argmax_shift: "argmax (map (\<lambda>v. v - c) r) = argmax r"
proof (cases "r = []")
  case True then show ?thesis by (simp add: argmax_def)
next
  case False
  have fi: "first_index (m - c) (map (\<lambda>v. v - c) r) = first_index m r" for m
    by (induction r) auto
  have "Max (set (map (\<lambda>v. v - c) r)) = Max (set r) - c"
    using False mono_Max_commute [of "\<lambda>v. v - c" "set r"] by (simp add: mono_def)
  then show ?thesis by (simp add: argmax_def fi)
qed

lemma argmax_lsm:
  assumes "r \<noteq> []"
  shows "argmax (map exp (log_softmax_row r)) = argmax r"
proof -
  have "argmax (map exp (log_softmax_row r)) = argmax (log_softmax_row r)"
    by (rule argmax_exp) (simp add: log_softmax_row_def assms)
  also have "\<dots> = argmax r"
    unfolding log_softmax_row_def by (rule argmax_shift)
  finally show ?thesis .
qed



lemma class0_nth:
  "data (class0_parameters ! 0) = replicate (256 * 784) 0"
  "data (class0_parameters ! Suc 0) = replicate 256 0"
  "data (class0_parameters ! 2) = replicate (128 * 256) 0"
  "data (class0_parameters ! 3) = replicate 128 0"
  "data (class0_parameters ! 4) = replicate (64 * 128) 0"
  "data (class0_parameters ! 5) = replicate 64 0"
  "data (class0_parameters ! 6) = replicate (10 * 64) 0"
  "data (class0_parameters ! 7) = 1 # replicate 9 0"
  by (simp_all add: class0_parameters_def class0_init_def fresh_parameters_def zero_init_def)

lemma relu_zero_rows: "relu (map (\<lambda>_. replicate n 0) x) = map (\<lambda>_. replicate n 0) x"
  by (simp add: relu_def)

lemma Classifier_forward_class0:
  assumes "list_all (\<lambda>img. length (concat (concat img)) = 784) x" and ne: "x \<noteq> []"
  shows "Classifier_forward class0_parameters x
           = Inr (map (\<lambda>_. log_softmax_row (1 # replicate 9 0)) x)"
proof -
  let ?x0 = "map (\<lambda>img. concat (concat img)) x"
  have w0: "list_all (\<lambda>r. length r = in_features (fc1 Classifier)) ?x0"
    using view_flat_widths [OF assms(1)] by (simp add: Classifier_def)
  have 1: "Linear_forward class0_parameters (fc1 Classifier) ?x0
             = Inr (map (\<lambda>_. replicate 256 0) x)"
    using Linear_forward_zero [OF _ _ w0, of class0_parameters]
    by (simp add: Classifier_def class0_nth comp_def)
  have 2: "Linear_forward class0_parameters (fc2 Classifier) (map (\<lambda>_. replicate 256 0) x)
             = Inr (map (\<lambda>_. replicate 128 0) x)"
    using Linear_forward_zero [of class0_parameters "fc2 Classifier" "map (\<lambda>_. replicate 256 0) x"]
    by (simp add: Classifier_def class0_nth list_all_iff comp_def)
  have 3: "Linear_forward class0_parameters (fc3 Classifier) (map (\<lambda>_. replicate 128 0) x)
             = Inr (map (\<lambda>_. replicate 64 0) x)"
    using Linear_forward_zero [of class0_parameters "fc3 Classifier" "map (\<lambda>_. replicate 128 0) x"]
    by (simp add: Classifier_def class0_nth list_all_iff comp_def)
  have 4: "Linear_forward class0_parameters (fc4 Classifier) (map (\<lambda>_. replicate 64 0) x)
             = Inr (map (\<lambda>_. 1 # replicate 9 0) x)"
    using Linear_forward_zero [of class0_parameters "fc4 Classifier" "map (\<lambda>_. replicate 64 0) x"]
    by (simp add: Classifier_def class0_nth list_all_iff comp_def)
  show ?thesis
    by (simp add: Classifier_forward_def bindE_def view_flat_ok [OF ne] 1 2 3 4 relu_zero_rows
        log_softmax_def comp_def)
qed

lemma batch_accuracy_constant:
  assumes "r \<noteq> []" and "0 < n"
  shows "batch_accuracy (replicate n (log_softmax_row r)) (replicate n l)
           = Inr (if int (argmax r) = l then 1 else 0)"
proof -
  have ne: "map exp (log_softmax_row r) \<noteq> []"
    using assms(1) by (simp add: log_softmax_row_def)
  have "topk1 (map (map exp) (replicate n (log_softmax_row r))) = Inr (replicate n (argmax r))"
    using ne by (simp add: topk1_def list_all_iff argmax_lsm [OF assms(1)])
  then show ?thesis
    using assms(2) by (simp add: batch_accuracy_def equals_mean_def bindE_def sum_list_replicate)
qed

lemma matches_constant:
  "matches (replicate n r) (replicate n l) = (if int (argmax r) = l then n else 0)"
  by (simp add: matches_def)

lemma argmax_class0: "argmax (1 # replicate 9 0) = 0"
  by (simp add: argmax_def)

lemma argmax_lsm_any: "argmax (log_softmax_row r) = argmax r"
  unfolding log_softmax_row_def by (rule argmax_shift)

lemma blank_images_width: "list_all (\<lambda>img. length (concat (concat img)) = 784) (replicate n blank_image)"
  by (simp add: list_all_iff blank_image_width)

section \<open>Properties of the gradient accumulators\<close>

lemma sum_list_map2_nth:
  "length xs = length ys \<Longrightarrow>
   sum_list (map2 f xs ys) = (\<Sum>i<length xs. (f (xs ! i) (ys ! i) :: real))"
  by (simp add: sum_list_sum_nth atLeast0LessThan)

lemma length_gradient_of: "length (gradient_of g ps) = length ps"
  by (simp add: gradient_of_def)

lemma gradient_of_nth:
  "i < length ps \<Longrightarrow> gradient_of g ps ! i = map (g i) [0..<length (data (ps ! i))]"
  by (simp add: gradient_of_def nth_enumerate_eq)

lemma length_backward: "length (backward g ps) = length ps"
  by (simp add: backward_def length_gradient_of)

lemma backward_nth:
  "i < length ps \<Longrightarrow>
   backward g ps ! i = accumulate (map (g i) [0..<length (data (ps ! i))]) (ps ! i)"
  by (simp add: backward_def length_gradient_of gradient_of_nth)

lemma data_backward: "map data (backward g ps) = map data ps"
  by (rule nth_equalityI) (simp_all add: length_backward backward_nth accumulate_def)

lemma gradient_of_cong: "map data ps = map data qs \<Longrightarrow> gradient_of g ps = gradient_of g qs"
proof -
  assume a: "map data ps = map data qs"
  then have l: "length ps = length qs" by (metis length_map)
  have "data (ps ! i) = data (qs ! i)" if "i < length ps" for i
    using a that l by (metis nth_map)
  then show ?thesis using l
    by (intro nth_equalityI) (simp_all add: length_gradient_of gradient_of_nth)
qed

lemma map2_add_zeros:
  "list_all (\<lambda>v. v = 0) a \<Longrightarrow> length a = length d \<Longrightarrow> map2 (+) a d = (d :: real list)"
proof (induction a arbitrary: d)
  case Nil then show ?case by simp
next
  case (Cons x a) then show ?case by (cases d) auto
qed

lemma accumulate_clear:
  assumes "clear (grad p)"
    and "case grad p of None \<Rightarrow> True | Some a \<Rightarrow> length a = length d"
  shows "grad (accumulate d p) = Some d"
  using assms by (auto simp: accumulate_def clear_def map2_add_zeros split: option.splits)

lemma backward_clear:
  assumes "list_all (\<lambda>p. clear (grad p)) ps" and "grads_shaped ps"
  shows "map grad (backward g ps) = map Some (gradient_of g ps)"
proof (rule nth_equalityI)
  show "length (map grad (backward g ps)) = length (map Some (gradient_of g ps))"
    by (simp add: length_backward length_gradient_of)
next
  fix i assume "i < length (map grad (backward g ps))"
  then have i: "i < length ps" by (simp add: length_backward)
  then have p: "ps ! i \<in> set ps" by simp
  have "grad (accumulate (map (g i) [0..<length (data (ps ! i))]) (ps ! i))
          = Some (map (g i) [0..<length (data (ps ! i))])"
    using assms p by (intro accumulate_clear) (auto simp: list_all_iff grads_shaped_def split: option.splits)
  then show "map grad (backward g ps) ! i = map Some (gradient_of g ps) ! i"
    using i by (simp add: length_backward length_gradient_of backward_nth gradient_of_nth)
qed

lemma zero_grad_clear: "list_all (\<lambda>p. clear (grad p)) (zero_grad ps)"
  by (auto simp: list_all_iff zero_grad_def zero_param_def clear_def split: option.splits)

lemma zero_grad_shaped: "grads_shaped ps \<Longrightarrow> grads_shaped (zero_grad ps)"
  by (auto simp: list_all_iff zero_grad_def zero_param_def grads_shaped_def split: option.splits)

lemma data_zero_grad: "map data (zero_grad ps) = map data ps"
  by (simp add: zero_grad_def zero_param_def)

lemma backward_shaped: "grads_shaped ps \<Longrightarrow> grads_shaped (backward g ps)"
  unfolding grads_shaped_def list_all_length
  by (auto simp: length_backward backward_nth accumulate_def split: option.splits)

lemma backward_twice:
  assumes "list_all (\<lambda>p. clear (grad p)) ps" and "grads_shaped ps"
  shows "map grad (backward g2 (backward g1 ps))
           = map Some (gradient_of (\<lambda>i j. g1 i j + g2 i j) ps)"
proof (rule nth_equalityI)
  show "length (map grad (backward g2 (backward g1 ps)))
          = length (map Some (gradient_of (\<lambda>i j. g1 i j + g2 i j) ps))"
    by (simp add: length_backward length_gradient_of)
next
  fix i assume "i < length (map grad (backward g2 (backward g1 ps)))"
  then have i: "i < length ps" by (simp add: length_backward)
  let ?n = "length (data (ps ! i))"
  have 1: "grad (backward g1 ps ! i) = Some (map (g1 i) [0..<?n])"
    using backward_clear [OF assms, of g1] i
    by (metis gradient_of_nth length_backward length_gradient_of length_map nth_map)
  have d: "data (backward g1 ps ! i) = data (ps ! i)"
    using i by (simp add: backward_nth accumulate_def)
  have "grad (backward g2 (backward g1 ps) ! i)
          = Some (map2 (+) (map (g1 i) [0..<?n]) (map (g2 i) [0..<?n]))"
    using i 1 d by (simp add: backward_nth [of i "backward g1 ps"] length_backward accumulate_def)
  also have "map2 (+) (map (g1 i) [0..<?n]) (map (g2 i) [0..<?n])
          = map (\<lambda>j. g1 i j + g2 i j) [0..<?n]"
    by (rule nth_equalityI) simp_all
  finally show "map grad (backward g2 (backward g1 ps)) ! i
                  = map Some (gradient_of (\<lambda>i j. g1 i j + g2 i j) ps) ! i"
    using i by (simp add: length_backward length_gradient_of gradient_of_nth)
qed

section \<open>Properties of the optimizer and of the loops\<close>

lemma foldE_log:
  assumes step: "\<And>s x. I s \<Longrightarrow> x \<in> set xs \<Longrightarrow> \<exists>s'. f s x = Inr s' \<and> I s' \<and> lg s' = lg s @ ev x"
    and "I s"
  shows "\<exists>s'. foldE f s xs = Inr s' \<and> I s' \<and> lg s' = lg s @ concat (map ev xs)"
  using assms
proof (induction xs arbitrary: s)
  case Nil
  then show ?case by simp
next
  case (Cons x xs)
  from Cons.prems(1) [OF Cons.prems(2), of x] obtain s1 where
    s1: "f s x = Inr s1" "I s1" "lg s1 = lg s @ ev x" by auto
  have "\<exists>s'. foldE f s1 xs = Inr s' \<and> I s' \<and> lg s' = lg s1 @ concat (map ev xs)"
    by (rule Cons.IH) (use Cons.prems(1) s1(2) in auto)
  then show ?case using s1 by (auto simp: bindE_def)
qed

lemma lens_cong:
  "map data ps = map data qs \<Longrightarrow>
   map (\<lambda>p. length (data p)) ps = map (\<lambda>p. length (data p)) qs"
proof -
  assume "map data ps = map data qs"
  then have "map length (map data ps) = map length (map data qs)" by simp
  then show ?thesis by (simp add: comp_def)
qed

lemma lens_zero_grad: "map (\<lambda>p. length (data p)) (zero_grad ps) = map (\<lambda>p. length (data p)) ps"
  by (rule lens_cong) (rule data_zero_grad)

lemma lens_backward: "map (\<lambda>p. length (data p)) (backward g ps) = map (\<lambda>p. length (data p)) ps"
  by (rule lens_cong) (rule data_backward)

lemma grads_shaped_iff:
  "grads_shaped ps \<longleftrightarrow>
   list_all2 (\<lambda>a n. case a of None \<Rightarrow> True | Some d \<Rightarrow> length d = n)
     (map grad ps) (map (\<lambda>p. length (data p)) ps)"
  by (auto simp: grads_shaped_def list_all2_conv_all_nth list_all_length split: option.splits)





lemma length_optimizer_step: "length (optimizer_step opt st ps) = length ps"
  by (simp add: optimizer_step_def)

lemma optimizer_step_nth:
  "i < length ps \<Longrightarrow>
   optimizer_step opt st ps ! i =
     (case grad (ps ! i) of
        None \<Rightarrow> ps ! i
      | Some d \<Rightarrow> (ps ! i)\<lparr>data := map (\<lambda>(j, v, dv). update_rule opt st i j v dv)
                                   (enumerate 0 (zip (data (ps ! i)) d))\<rparr>)"
  by (simp add: optimizer_step_def nth_enumerate_eq)

lemma grads_optimizer_step: "map grad (optimizer_step opt st ps) = map grad ps"
  by (rule nth_equalityI)
    (auto simp: length_optimizer_step optimizer_step_nth split: option.splits)

lemma lens_optimizer_step:
  assumes "grads_shaped ps"
  shows "map (\<lambda>p. length (data p)) (optimizer_step opt st ps) = map (\<lambda>p. length (data p)) ps"
proof (rule nth_equalityI)
  show "length (map (\<lambda>p. length (data p)) (optimizer_step opt st ps))
          = length (map (\<lambda>p. length (data p)) ps)"
    by (simp add: length_optimizer_step)
next
  fix i assume "i < length (map (\<lambda>p. length (data p)) (optimizer_step opt st ps))"
  then have i: "i < length ps" by (simp add: length_optimizer_step)
  then have "case grad (ps ! i) of None \<Rightarrow> True | Some a \<Rightarrow> length a = length (data (ps ! i))"
    using assms by (simp add: grads_shaped_def list_all_length)
  then show "map (\<lambda>p. length (data p)) (optimizer_step opt st ps) ! i
               = map (\<lambda>p. length (data p)) ps ! i"
    using i by (auto simp: length_optimizer_step optimizer_step_nth split: option.splits)
qed

lemma optimizer_step_shaped: "grads_shaped ps \<Longrightarrow> grads_shaped (optimizer_step opt st ps)"
  by (simp add: grads_shaped_iff [of "optimizer_step opt st ps"] grads_optimizer_step
      lens_optimizer_step grads_shaped_iff [symmetric])

lemma nll_loss_ok:
  assumes "list_all (\<lambda>r. length r = 10) out" and "length lbl = length out"
    and "list_all (\<lambda>t. 0 \<le> t \<and> t < 10) lbl"
  shows "\<exists>loss. nll_loss out lbl = Inr loss"
proof -
  have "list_all2 (\<lambda>r t. 0 \<le> t \<and> t < int (length r)) out lbl"
    using assms by (simp add: list_all2_conv_all_nth list_all_length)
  then show ?thesis using assms(2) by (simp add: nll_loss_def)
qed

lemma zero_grad_found_clear: "list_all clear (map grad (zero_grad ps))"
  using zero_grad_clear [of ps] by (simp add: list_all_iff)

lemma backward_left:
  assumes "list_all clear (map grad ps)" and "grads_shaped ps"
  shows "map grad (backward g ps) = map Some (gradient_of g ps)"
  using assms by (intro backward_clear) (simp_all add: list_all_iff)






lemma fresh_session_ok:
  "map (\<lambda>p. length (data p)) (params (fresh_session init st)) = map length init"
  "grads_shaped (params (fresh_session init st))"
  "list_all clear (map grad (params (fresh_session init st)))"
  "trace (fresh_session init st) = []"
  "training (fresh_session init st) = True"
  by (simp_all add: fresh_session_def fresh_parameters_def comp_def grads_shaped_def
      list_all_iff clear_def)










lemma dropout_widths:
  "list_all (\<lambda>r. length r = n) y \<Longrightarrow> list_all (\<lambda>r. length r = n) (dropout p t keep y)"
  by (auto simp: dropout_def list_all_iff enumerate_eq_zip dest!: set_zip_rightD)

lemma length_dropout: "length (dropout p t keep y) = length y"
  by (simp add: dropout_def)

lemma Network_forward_rows:
  assumes sh: "Classifier_shapes ps" and ne: "x \<noteq> []"
    and w: "list_all (\<lambda>img. length (concat (concat img)) = 784) x"
  shows "\<exists>y. Network_forward ps t draw x = Inr y \<and> length y = length x
           \<and> list_all (\<lambda>r. length r = 10 \<and> log_probability_row r) y"
proof -
  let ?x0 = "map (\<lambda>img. concat (concat img)) x"
  note nth = shapes_nth [OF sh [unfolded Classifier_shapes_def]]
  let ?d = "\<lambda>k. dropout (dropout_p Network) t (draw k)"
  have b1: "length (data (ps ! bias (fc1 Network))) = out_features (fc1 Network)"
    using nth [of 1] by (simp add: Network_def)
  have b2: "length (data (ps ! bias (fc2 Network))) = out_features (fc2 Network)"
    using nth [of 3] by (simp add: Network_def)
  have b3: "length (data (ps ! bias (fc3 Network))) = out_features (fc3 Network)"
    using nth [of 5] by (simp add: Network_def)
  have b4: "length (data (ps ! bias (fc4 Network))) = out_features (fc4 Network)"
    using nth [of 7] by (simp add: Network_def)
  have w0: "list_all (\<lambda>r. length r = in_features (fc1 Network)) ?x0"
    using view_flat_widths [OF w] by (simp add: Network_def)
  from Linear_forward_ok [OF w0 b1] obtain a1 where
    a1: "Linear_forward ps (fc1 Network) ?x0 = Inr a1" "length a1 = length x"
      "list_all (\<lambda>r. length r = 256) a1"
    by (auto simp: Network_def)
  have w1: "list_all (\<lambda>r. length r = in_features (fc2 Network)) (?d 0 (relu a1))"
    using dropout_widths [OF relu_widths [OF a1(3)]] by (simp add: Network_def)
  from Linear_forward_ok [OF w1 b2] obtain a2 where
    a2: "Linear_forward ps (fc2 Network) (?d 0 (relu a1)) = Inr a2" "length a2 = length x"
      "list_all (\<lambda>r. length r = 128) a2"
    using a1(2) by (auto simp: Network_def length_relu length_dropout)
  have w2: "list_all (\<lambda>r. length r = in_features (fc3 Network)) (?d 1 (relu a2))"
    using dropout_widths [OF relu_widths [OF a2(3)]] by (simp add: Network_def)
  from Linear_forward_ok [OF w2 b3] obtain a3 where
    a3: "Linear_forward ps (fc3 Network) (?d 1 (relu a2)) = Inr a3" "length a3 = length x"
      "list_all (\<lambda>r. length r = 64) a3"
    using a2(2) by (auto simp: Network_def length_relu length_dropout)
  have w3: "list_all (\<lambda>r. length r = in_features (fc4 Network)) (?d 2 (relu a3))"
    using dropout_widths [OF relu_widths [OF a3(3)]] by (simp add: Network_def)
  from Linear_forward_ok [OF w3 b4] obtain a4 where
    a4: "Linear_forward ps (fc4 Network) (?d 2 (relu a3)) = Inr a4" "length a4 = length x"
      "list_all (\<lambda>r. length r = 10) a4"
    using a3(2) by (auto simp: Network_def length_relu length_dropout)
  have "Network_forward ps t draw x = Inr (log_softmax a4)"
    using a1(1) a2(1) a3(1) a4(1) by (simp add: Network_forward_def bindE_def view_flat_ok [OF ne])
  moreover have "length (log_softmax a4) = length x"
    using a4(2) by (simp add: log_softmax_def)
  moreover have "list_all (\<lambda>r. length r = 10 \<and> log_probability_row r) (log_softmax a4)"
    using log_softmax_rows [OF a4(3)] by simp
  ultimately show ?thesis by blast
qed

lemma Network_train_step_ok:
  fixes s :: "'o session"
  assumes sh: "Classifier_shapes (params s)" and gs: "grads_shaped (params s)"
    and ok: "list_all call_ok (trace s)" and vb: "valid_batch (fst b)"
  shows "\<exists>s'. Network_train_step opt autograd s b = Inr s'
           \<and> Classifier_shapes (params s') \<and> grads_shaped (params s')
           \<and> list_all call_ok (trace s') \<and> vars_bound s'
           \<and> training s' = training s \<and> printed s' = printed s
           \<and> map op_of (trace s') = map op_of (trace s)
                @ [ZeroGradOp, ForwardOp TrainingStep (training s), BackwardOp, StepOp]"
proof -
  obtain images lbl draw where b: "b = ((images, lbl), draw)" by (cases b) auto
  have v: "list_all (\<lambda>img. length (concat (concat img)) = 784) images"
    "length lbl = length images" "list_all (\<lambda>t. 0 \<le> t \<and> t < 10) lbl" "images \<noteq> []"
    using vb by (simp_all add: valid_batch_def b)
  let ?ps0 = "zero_grad (params s)"
  have sh0: "Classifier_shapes ?ps0" using sh by (simp add: Classifier_shapes_def lens_zero_grad)
  have gs0: "grads_shaped ?ps0" using gs by (rule zero_grad_shaped)
  from Network_forward_rows [OF sh0 v(4) v(1), of "training s" draw] obtain out where
    out: "Network_forward ?ps0 (training s) draw images = Inr out"
      "length out = length images" "list_all (\<lambda>r. length r = 10) out"
    by (auto simp: list_all_iff)
  from nll_loss_ok [OF out(3) _ v(3)] obtain loss where
    loss: "nll_loss out lbl = Inr loss" using out(2) v(2) by auto
  let ?g = "autograd ?ps0 (training s) draw images lbl"
  let ?ps1 = "backward ?g ?ps0"
  let ?ps2 = "optimizer_step opt (opt_state s) ?ps1"
  let ?s' = "s\<lparr>params := ?ps2, opt_state := next_state opt (opt_state s) ?ps1,
               running_loss := running_loss s + loss,
               output_var := Some out, labels_var := Some lbl,
               trace := trace s
                 @ [ZeroGrad, Forward TrainingStep (training s),
                    Backward (map grad ?ps0) (gradient_of ?g ?ps0) (map grad ?ps1), Step]\<rparr>"
  have run: "Network_train_step opt autograd s b = Inr ?s'"
    by (simp add: Network_train_step_def model_call_def loss_backward_def
        optimizer_step_call_def optimizer_zero_grad_def b out(1) loss bindE_def Let_def)
  have gs1: "grads_shaped ?ps1" using gs0 by (rule backward_shaped)
  have "map (\<lambda>p. length (data p)) ?ps2 = map (\<lambda>p. length (data p)) (params s)"
    by (simp add: lens_zero_grad lens_optimizer_step [OF gs1] lens_backward)
  then have sh': "Classifier_shapes ?ps2" using sh by (simp add: Classifier_shapes_def)
  have gs': "grads_shaped ?ps2" using gs1 by (rule optimizer_step_shaped)
  have left: "map grad ?ps1 = map Some (gradient_of ?g ?ps0)"
    using zero_grad_found_clear gs0 by (rule backward_left)
  have ok': "list_all call_ok (trace ?s')" using ok left zero_grad_found_clear [of "params s"] by simp
  have vars: "vars_bound ?s'" using out(2,3) v(2) by (simp add: vars_bound_def)
  show ?thesis using run sh' gs' ok' vars by (intro exI [of _ ?s']) simp
qed

lemma Network_batches_ok:
  fixes s :: "'o session"
  assumes sh: "Classifier_shapes (params s)" and gs: "grads_shaped (params s)"
    and ok: "list_all call_ok (trace s)" and tr: "training s = m"
    and vb: "list_all (\<lambda>b. valid_batch (fst b)) bs" and ne: "bs \<noteq> []"
  shows "\<exists>s'. foldE (Network_train_step opt autograd) s bs = Inr s'
           \<and> Classifier_shapes (params s') \<and> grads_shaped (params s')
           \<and> list_all call_ok (trace s') \<and> vars_bound s' \<and> training s' = m
           \<and> map op_of (trace s') = map op_of (trace s)
                @ concat (map (\<lambda>_. [ZeroGradOp, ForwardOp TrainingStep m, BackwardOp, StepOp]) bs)"
proof -
  obtain b rest where bs: "bs = b # rest" using ne by (cases bs) auto
  let ?I = "\<lambda>s::'o session. Classifier_shapes (params s) \<and> grads_shaped (params s)
              \<and> list_all call_ok (trace s) \<and> vars_bound s \<and> training s = m"
  from Network_train_step_ok [OF sh gs ok, of b opt autograd] vb tr obtain s1 where s1:
    "Network_train_step opt autograd s b = Inr s1" "?I s1"
    "map op_of (trace s1) = map op_of (trace s)
       @ [ZeroGradOp, ForwardOp TrainingStep m, BackwardOp, StepOp]"
    by (auto simp: bs)
  have "\<exists>s'. foldE (Network_train_step opt autograd) s1 rest = Inr s' \<and> ?I s'
          \<and> map op_of (trace s') = map op_of (trace s1)
               @ concat (map (\<lambda>_. [ZeroGradOp, ForwardOp TrainingStep m, BackwardOp, StepOp]) rest)"
  proof (rule foldE_log [where I = ?I and lg = "\<lambda>s::'o session. map op_of (trace s)"])
    show "?I s1" by (rule s1(2))
  next
    fix t :: "'o session" and x assume t: "?I t" and x: "x \<in> set rest"
    then have "valid_batch (fst x)" using vb by (simp add: list_all_iff bs)
    with t Network_train_step_ok [of t x opt autograd]
    show "\<exists>s'. Network_train_step opt autograd t x = Inr s' \<and> ?I s'
            \<and> map op_of (trace s') = map op_of (trace t)
                 @ [ZeroGradOp, ForwardOp TrainingStep m, BackwardOp, StepOp]"
      by auto
  qed
  then show ?thesis using s1 by (auto simp: bs bindE_def)
qed

lemma Network_validation_result:
  assumes "Network_validation s bs = Inr s'"
  shows "\<exists>out lbl acc. output_var s = Some out \<and> labels_var s = Some lbl
           \<and> batch_accuracy out lbl = Inr acc
           \<and> s' = s\<lparr>training := False, printed := printed s @ [acc],
                     trace := trace s @ [Forward Evaluation False]\<rparr>"
  using assms
  by (auto simp: Network_validation_def model_eval_def model_call_def print_value_def
      Let_def bindE_def batch_accuracy_def split: list.splits sum.splits option.splits)

lemma Network_validation_ok:
  fixes s :: "'o session"
  assumes sh: "Classifier_shapes (params s)" and vt: "valid_testloader bs" and vars: "vars_bound s"
  shows "\<exists>s'. Network_validation s bs = Inr s'"
proof -
  from vt obtain images label rest where
    bs: "bs = (images, label) # rest" and vb: "valid_batch (images, label)"
    by (cases bs) (auto simp: valid_testloader_def)
  have v: "list_all (\<lambda>img. length (concat (concat img)) = 784) images" "images \<noteq> []"
    using vb by (simp_all add: valid_batch_def)
  from Network_forward_rows [OF sh v(2) v(1), of False no_draw] obtain test where
    test: "Network_forward (params s) False no_draw images = Inr test" by auto
  from vars obtain out lbl where
    o: "output_var s = Some out" "labels_var s = Some lbl"
      "list_all (\<lambda>r. length r = 10) out" "length lbl = length out"
    by (auto simp: vars_bound_def split: option.splits)
  have "list_all (\<lambda>r. r \<noteq> []) (map (map exp) out)"
    using o(3) by (auto simp: list_all_iff)
  then show ?thesis
    using o test
    by (simp add: Network_validation_def model_eval_def model_call_def Let_def bs bindE_def
        topk1_def equals_mean_def)
qed

lemma Network_epoch_ok:
  fixes s :: "'o session"
  assumes sh: "Classifier_shapes (params s)" and gs: "grads_shaped (params s)"
    and ok: "list_all call_ok (trace s)" and tr: "training s = m"
    and vb: "list_all (\<lambda>b. valid_batch (fst b)) (trainloader e)" and ne: "trainloader e \<noteq> []"
    and vt: "valid_testloader (testloader e)"
  shows "\<exists>s'. Network_epoch opt autograd trainloader testloader s e = Inr s'
           \<and> Classifier_shapes (params s') \<and> grads_shaped (params s')
           \<and> list_all call_ok (trace s') \<and> training s' = False
           \<and> map op_of (trace s') = map op_of (trace s)
                @ (concat (map (\<lambda>_. [ZeroGradOp, ForwardOp TrainingStep m, BackwardOp, StepOp])
                      (trainloader e)) @ [ForwardOp Evaluation False])"
proof -
  from Network_batches_ok [of "s\<lparr>running_loss := 0\<rparr>" m "trainloader e" opt autograd]
    sh gs ok tr vb ne
  obtain s1 where s1:
    "foldE (Network_train_step opt autograd) (s\<lparr>running_loss := 0\<rparr>) (trainloader e) = Inr s1"
    "Classifier_shapes (params s1)" "grads_shaped (params s1)" "list_all call_ok (trace s1)"
    "vars_bound s1" "training s1 = m"
    "map op_of (trace s1) = map op_of (trace s)
       @ concat (map (\<lambda>_. [ZeroGradOp, ForwardOp TrainingStep m, BackwardOp, StepOp]) (trainloader e))"
    by auto
  from Network_validation_ok [OF s1(2) vt s1(5)] obtain s2 where
    s2: "Network_validation s1 (testloader e) = Inr s2" by auto
  from Network_validation_result [OF s2] obtain acc where
    eq: "s2 = s1\<lparr>training := False, printed := printed s1 @ [acc],
                 trace := trace s1 @ [Forward Evaluation False]\<rparr>"
    by auto
  show ?thesis
    using s1 s2 by (intro exI [of _ s2]) (simp add: Network_epoch_def bindE_def eq)
qed

lemma Network_training_ok:
  assumes init: "map length init = [256 * 784, 256, 128 * 256, 128, 64 * 128, 64, 10 * 64, 10]"
    and vb: "\<forall>e<epochs. trainloader e \<noteq> [] \<and> list_all (\<lambda>b. valid_batch (fst b)) (trainloader e)
                \<and> valid_testloader (testloader e)"
  shows "\<exists>s. Network_training opt autograd init st epochs trainloader testloader = Inr s
           \<and> list_all call_ok (trace s)
           \<and> map op_of (trace s) =
               concat (map (\<lambda>e. concat (map (\<lambda>_. [ZeroGradOp, ForwardOp TrainingStep (e = 0), BackwardOp, StepOp])
                                          (trainloader e)) @ [ForwardOp Evaluation False]) [0..<epochs])"
proof (cases epochs)
  case 0
  then show ?thesis by (simp add: Network_training_def fresh_session_ok model_train_def)
next
  case (Suc n)
  let ?s0 = "model_train (fresh_session init st)"
  let ?blk = "\<lambda>m e. concat (map (\<lambda>_. [ZeroGradOp, ForwardOp TrainingStep m, BackwardOp, StepOp])
                          (trainloader e)) @ [ForwardOp Evaluation False]"
  have up: "[0..<epochs] = 0 # [1..<epochs]" using Suc by (simp add: upt_conv_Cons)
  have v0: "trainloader 0 \<noteq> []" "list_all (\<lambda>b. valid_batch (fst b)) (trainloader 0)"
    "valid_testloader (testloader 0)"
    using vb Suc by auto
  have sh0: "Classifier_shapes (params ?s0)"
    using init by (simp add: Classifier_shapes_def fresh_session_ok model_train_def)
  from Network_epoch_ok [of ?s0 True trainloader 0 testloader opt autograd] sh0 v0
  obtain s1 where s1:
    "Network_epoch opt autograd trainloader testloader ?s0 0 = Inr s1"
    "Classifier_shapes (params s1)" "grads_shaped (params s1)" "list_all call_ok (trace s1)"
    "training s1 = False"
    "map op_of (trace s1) = ?blk True 0"
    by (auto simp: fresh_session_ok model_train_def)
  let ?I = "\<lambda>s::'a session. Classifier_shapes (params s) \<and> grads_shaped (params s)
              \<and> list_all call_ok (trace s) \<and> training s = False"
  have "\<exists>s'. foldE (Network_epoch opt autograd trainloader testloader) s1 [1..<epochs] = Inr s'
          \<and> ?I s'
          \<and> map op_of (trace s') = map op_of (trace s1) @ concat (map (?blk False) [1..<epochs])"
  proof (rule foldE_log [where I = ?I and lg = "\<lambda>s::'a session. map op_of (trace s)"])
    show "?I s1" using s1 by simp
  next
    fix t :: "'a session" and e assume t: "?I t" and e: "e \<in> set [1..<epochs]"
    then have "trainloader e \<noteq> []" "list_all (\<lambda>b. valid_batch (fst b)) (trainloader e)"
      "valid_testloader (testloader e)" using vb by auto
    with t Network_epoch_ok [of t False trainloader e testloader opt autograd]
    show "\<exists>s'. Network_epoch opt autograd trainloader testloader t e = Inr s' \<and> ?I s'
            \<and> map op_of (trace s') = map op_of (trace t) @ ?blk False e"
      by auto
  qed
  then obtain s2 where s2:
    "foldE (Network_epoch opt autograd trainloader testloader) s1 [1..<epochs] = Inr s2"
    "list_all call_ok (trace s2)"
    "map op_of (trace s2) = ?blk True 0 @ concat (map (?blk False) [1..<epochs])"
    using s1(6) by auto
  have "concat (map (?blk False) [1..<epochs]) = concat (map (\<lambda>e. ?blk (e = 0) e) [1..<epochs])"
    by (rule arg_cong [where f = concat], rule map_cong) auto
  then have "map op_of (trace s2) = ?blk True 0 @ concat (map (\<lambda>e. ?blk (e = 0) e) [1..<epochs])"
    using s2(3) by (simp only:)
  moreover have "concat (map (\<lambda>e. ?blk (e = 0) e) [0..<epochs])
                   = ?blk True 0 @ concat (map (\<lambda>e. ?blk (e = 0) e) [1..<epochs])"
    by (subst up) simp
  ultimately have "map op_of (trace s2) = concat (map (\<lambda>e. ?blk (e = 0) e) [0..<epochs])"
    by (simp only:)
  then show ?thesis
    using s1(1) s2(1,2) by (intro exI [of _ s2]) (simp add: Network_training_def up bindE_def)
qed

lemma class0_session_params: "params class0_session = class0_parameters"
  by (simp add: class0_session_def class0_parameters_def fresh_session_def)

lemma class0_session_printed: "printed class0_session = []"
  by (simp add: class0_session_def fresh_session_def)

lemma valid_blank_batch: "valid_batch blank_batch"
  by (simp add: valid_batch_def blank_batch_def list_all_iff blank_image_width)

lemma valid_blank_testloader: "valid_testloader [blank_batch]"
  by (simp add: valid_testloader_def valid_blank_batch)

lemma valid_ordered_testloader:
  "valid_testloader ordered_testloader" "valid_testloader (rev ordered_testloader)"
  by (simp_all add: valid_testloader_def ordered_testloader_def valid_batch_def list_all_iff
      blank_image_width)


lemma foldE_snoc: "foldE f s (xs @ [x]) = bindE (foldE f s xs) (\<lambda>t. f t x)"
  by (induction xs arbitrary: s) (auto simp: bindE_def split: sum.splits)

lemma Network_train_step_result:
  assumes "Network_train_step opt autograd s ((images, lbl), d) = Inr s'"
  shows "\<exists>out. Network_forward (zero_grad (params s)) (training s) d images = Inr out
           \<and> output_var s' = Some out \<and> labels_var s' = Some lbl \<and> printed s' = printed s"
  using assms
  by (auto simp: Network_train_step_def model_call_def loss_backward_def
      optimizer_step_call_def optimizer_zero_grad_def Let_def bindE_def split: sum.splits)

lemma Network_batches_printed:
  "foldE (Network_train_step opt autograd) s bs = Inr t \<Longrightarrow> printed t = printed s"
proof (induction bs arbitrary: s)
  case Nil
  then show ?case by simp
next
  case (Cons b bs)
  obtain images lbl d where b: "b = ((images, lbl), d)" by (cases b) auto
  from Cons.prems obtain s1 where
    s1: "Network_train_step opt autograd s b = Inr s1"
      "foldE (Network_train_step opt autograd) s1 bs = Inr t"
    by (auto simp: bindE_def split: sum.splits)
  have "printed s1 = printed s"
    using Network_train_step_result [OF s1(1) [unfolded b]] by auto
  then show ?case using Cons.IH [OF s1(2)] by simp
qed

lemma Network_epoch_printed:
  assumes run: "Network_epoch opt autograd trainloader testloader s e = Inr s'"
    and last: "trainloader e = bs @ [((images, lbl), d)]"
  shows "\<exists>t out acc. foldE (Network_train_step opt autograd) (s\<lparr>running_loss := 0\<rparr>) bs = Inr t
           \<and> Network_forward (zero_grad (params t)) (training t) d images = Inr out
           \<and> batch_accuracy out lbl = Inr acc \<and> printed s' = printed s @ [acc]"
proof -
  from run obtain s1 where
    s1: "foldE (Network_train_step opt autograd) (s\<lparr>running_loss := 0\<rparr>) (trainloader e) = Inr s1"
      "Network_validation s1 (testloader e) = Inr s'"
    by (auto simp: Network_epoch_def bindE_def split: sum.splits)
  from s1(1) obtain t where
    t: "foldE (Network_train_step opt autograd) (s\<lparr>running_loss := 0\<rparr>) bs = Inr t"
      "Network_train_step opt autograd t ((images, lbl), d) = Inr s1"
    by (auto simp: last foldE_snoc bindE_def split: sum.splits)
  from Network_train_step_result [OF t(2)] obtain out where
    out: "Network_forward (zero_grad (params t)) (training t) d images = Inr out"
      "output_var s1 = Some out" "labels_var s1 = Some lbl" "printed s1 = printed t"
    by auto
  from Network_validation_result [OF s1(2)] out(2,3) obtain acc where
    acc: "batch_accuracy out lbl = Inr acc" "printed s' = printed s1 @ [acc]"
    by auto
  have "printed t = printed s" using Network_batches_printed [OF t(1)] by simp
  then show ?thesis using t(1) out(1,4) acc by auto
qed

lemma Network_epoch_testloader:
  assumes "Network_epoch opt autograd trainloader testloader s e = Inr a"
    and "Network_epoch opt autograd trainloader testloader' s e = Inr b"
  shows "a = b"
proof -
  from assms obtain s1 where
    s1: "Network_validation s1 (testloader e) = Inr a" "Network_validation s1 (testloader' e) = Inr b"
    by (auto simp: Network_epoch_def bindE_def split: sum.splits)
  show ?thesis
    using Network_validation_result [OF s1(1)] Network_validation_result [OF s1(2)] by auto
qed

lemma Network_epochs_testloader:
  assumes "foldE (Network_epoch opt autograd trainloader testloader) s es = Inr a"
    and "foldE (Network_epoch opt autograd trainloader testloader') s es = Inr b"
  shows "a = b"
  using assms
proof (induction es arbitrary: s)
  case Nil
  then show ?case by simp
next
  case (Cons e es)
  from Cons.prems obtain s1 s2 where
    s: "Network_epoch opt autograd trainloader testloader s e = Inr s1"
      "foldE (Network_epoch opt autograd trainloader testloader) s1 es = Inr a"
      "Network_epoch opt autograd trainloader testloader' s e = Inr s2"
      "foldE (Network_epoch opt autograd trainloader testloader') s2 es = Inr b"
    by (auto simp: bindE_def split: sum.splits)
  have "s1 = s2" using s(1,3) by (rule Network_epoch_testloader)
  then show ?case using Cons.IH s(2,4) by simp
qed

section \<open>The loss\<close>

text \<open>
  For a batch of at least one row with as many labels as rows, each label an index into
  its row, the modelled loss is the arithmetic mean over the batch of the negated entries
  at the label indices.
\<close>

lemma nll_loss_mean:
  assumes "input \<noteq> []" and "length target = length input"
    and "list_all2 (\<lambda>r t. 0 \<le> t \<and> t < int (length r)) input target"
  shows "nll_loss input target =
           Inr ((\<Sum>i<length input. - (input ! i ! nat (target ! i))) / real (length input))"
  using assms sum_list_map2_nth [of input target "\<lambda>r t. - (r ! nat t)"]
  by (simp add: nll_loss_def)

lemma nll_loss_mean_example:
  "nll_loss [[- 1, - 2], [- 3, - 4]] [1, 0] = Inr (5 / 2)"
  using nll_loss_mean [of "[[- 1, - 2], [- 3, - 4]]" "[1, 0]"]
  by (simp add: lessThan_Suc numeral_2_eq_2)

section \<open>Gradient accumulation\<close>

text \<open>
  C4. Whatever the accumulators held (each of the size of its parameter), after
  \<open>zero_grad()\<close> and one backward pass every accumulator holds the gradient of that batch
  alone. Two backward passes in a row with no reset between them, on accumulators that
  were clear before the first (absent, as in a fresh model, or just reset), leave in every
  accumulator the entrywise sum of the two gradients.
\<close>

theorem gradients_accumulate_until_reset:
  "(grads_shaped ps \<longrightarrow>
      map grad (backward g (zero_grad ps)) = map Some (gradient_of g ps))
   \<and> (grads_shaped qs \<and> list_all (\<lambda>p. clear (grad p)) qs \<longrightarrow>
      map grad (backward g2 (backward g1 qs))
        = map Some (gradient_of (\<lambda>i j. g1 i j + g2 i j) qs))"
proof -
  have eq: "gradient_of g (zero_grad ps) = gradient_of g ps"
    by (rule gradient_of_cong) (rule data_zero_grad)
  show ?thesis
    using backward_clear [OF zero_grad_clear zero_grad_shaped, of ps g]
      backward_twice [of qs g2 g1]
    by (simp add: eq)
qed

theorem gradients_accumulate_until_reset_witness:
  "map grad (backward (\<lambda>i j. 3) (zero_grad [\<lparr>data = [1, 2], grad = Some [5, 7]\<rparr>]))
     = [Some [3, 3]]
   \<and> map grad (backward (\<lambda>i j. 4) (backward (\<lambda>i j. 3) [\<lparr>data = [1, 2], grad = None\<rparr>]))
     = [Some [7, 7]]"
  using gradients_accumulate_until_reset
    [of "[\<lparr>data = [1, 2], grad = Some [5, 7]\<rparr>]" "\<lambda>i j. 3"
        "[\<lparr>data = [1, 2], grad = None\<rparr>]" "\<lambda>i j. 4" "\<lambda>i j. 3"]
  by (simp add: grads_shaped_def clear_def gradient_of_def enumerate_eq_zip numeral_2_eq_2)

section \<open>The training loops\<close>



text \<open>
  C10. In the validation block of the Network's cell the printed accuracy is that of the
  output and labels of the last training batch of the epoch: the forward pass on the test
  batch does not enter it. So two sessions that differ only in what the test loader yields
  print the same accuracies when both run to the end.
\<close>

theorem dropout_validation_reports_training_batch:
  "(Network_epoch opt autograd trainloader testloader s e = Inr s'
      \<and> trainloader e = bs @ [((images, lbl), d)] \<longrightarrow>
      (\<exists>t out acc. foldE (Network_train_step opt autograd) (s\<lparr>running_loss := 0\<rparr>) bs = Inr t
         \<and> Network_forward (zero_grad (params t)) (training t) d images = Inr out
         \<and> batch_accuracy out lbl = Inr acc \<and> printed s' = printed s @ [acc]))
   \<and> (Network_training opt autograd init st epochs trainloader testloader = Inr sa
      \<and> Network_training opt autograd init st epochs trainloader testloader' = Inr sb \<longrightarrow>
      printed sa = printed sb)"
proof (intro conjI impI)
  assume "Network_epoch opt autograd trainloader testloader s e = Inr s'
      \<and> trainloader e = bs @ [((images, lbl), d)]"
  then show "\<exists>t out acc. foldE (Network_train_step opt autograd) (s\<lparr>running_loss := 0\<rparr>) bs = Inr t
         \<and> Network_forward (zero_grad (params t)) (training t) d images = Inr out
         \<and> batch_accuracy out lbl = Inr acc \<and> printed s' = printed s @ [acc]"
    using Network_epoch_printed by blast
next
  assume "Network_training opt autograd init st epochs trainloader testloader = Inr sa
      \<and> Network_training opt autograd init st epochs trainloader testloader' = Inr sb"
  then have "sa = sb"
    unfolding Network_training_def using Network_epochs_testloader by blast
  then show "printed sa = printed sb" by simp
qed

theorem dropout_validation_reports_training_batch_witness:
  "(\<exists>s' t out acc.
      Network_epoch descent_optimizer zero_dropout_engine (\<lambda>e. [(blank_batch, keep_all)])
        (\<lambda>e. ordered_testloader) Network_fresh 0 = Inr s'
      \<and> foldE (Network_train_step descent_optimizer zero_dropout_engine)
          (Network_fresh\<lparr>running_loss := 0\<rparr>) [] = Inr t
      \<and> Network_forward (zero_grad (params t)) (training t) keep_all (replicate 64 blank_image)
          = Inr out
      \<and> batch_accuracy out (replicate 64 0) = Inr acc
      \<and> printed s' = printed Network_fresh @ [acc])
   \<and> (\<exists>sa sb.
      Network_training descent_optimizer zero_dropout_engine
        (zero_init [256 * 784, 256, 128 * 256, 128, 64 * 128, 64, 10 * 64, 10]) () 2
        (\<lambda>e. [(blank_batch, keep_all)]) (\<lambda>e. ordered_testloader) = Inr sa
      \<and> Network_training descent_optimizer zero_dropout_engine
        (zero_init [256 * 784, 256, 128 * 256, 128, 64 * 128, 64, 10 * 64, 10]) () 2
        (\<lambda>e. [(blank_batch, keep_all)]) (\<lambda>e. rev ordered_testloader) = Inr sb
      \<and> printed sa = printed sb)"
proof -
  let ?init = "zero_init [256 * 784, 256, 128 * 256, 128, 64 * 128, 64, 10 * 64, 10]"
  let ?tr = "\<lambda>e::nat. [(blank_batch, keep_all)]"
  have init: "map length ?init = [256 * 784, 256, 128 * 256, 128, 64 * 128, 64, 10 * 64, 10]"
    by (rule zero_init_lengths)
  have sh: "Classifier_shapes (params Network_fresh)"
    by (simp add: Network_fresh_def model_train_def Classifier_shapes_def fresh_session_ok
        zero_init_lengths)
  have "\<exists>s'. Network_epoch descent_optimizer zero_dropout_engine ?tr (\<lambda>e. ordered_testloader)
               Network_fresh 0 = Inr s'"
    using Network_epoch_ok [of Network_fresh True ?tr 0 "\<lambda>e. ordered_testloader"
        descent_optimizer zero_dropout_engine] sh
    by (auto simp: Network_fresh_def model_train_def fresh_session_ok valid_blank_batch
        valid_ordered_testloader)
  then obtain s' where s': "Network_epoch descent_optimizer zero_dropout_engine ?tr
      (\<lambda>e. ordered_testloader) Network_fresh 0 = Inr s'" by blast
  have vb: "\<forall>e<2. ?tr e \<noteq> [] \<and> list_all (\<lambda>b. valid_batch (fst b)) (?tr e)
              \<and> valid_testloader ((\<lambda>e. tl) e)"
    if "valid_testloader tl" for tl
    using that by (simp add: valid_blank_batch)
  from Network_training_ok [OF init vb [OF valid_ordered_testloader(1)],
      of descent_optimizer zero_dropout_engine "()"]
  obtain sa where sa: "Network_training descent_optimizer zero_dropout_engine ?init () 2 ?tr
      (\<lambda>e. ordered_testloader) = Inr sa" by blast
  from Network_training_ok [OF init vb [OF valid_ordered_testloader(2)],
      of descent_optimizer zero_dropout_engine "()"]
  obtain sb where sb: "Network_training descent_optimizer zero_dropout_engine ?init () 2 ?tr
      (\<lambda>e. rev ordered_testloader) = Inr sb" by blast
  show ?thesis
    using dropout_validation_reports_training_batch
      [of descent_optimizer zero_dropout_engine ?tr "\<lambda>e. ordered_testloader" Network_fresh 0 s'
          "[]" "replicate 64 blank_image" "replicate 64 0" keep_all ?init "()" 2 sa
          "\<lambda>e. rev ordered_testloader" sb]
      s' sa sb
    by (auto simp: blank_batch_def)
qed

section \<open>Where the notebooks depart from the described loop\<close>

text \<open>
  C6. The Network's cell calls \<open>model.train()\<close> once before the epochs and \<open>model.eval()\<close> in
  every validation block, and never returns to train-mode. Over the 30 epochs of the
  notebook, with one training batch per epoch, the forward pass of the training step runs
  in train-mode in the first epoch and in eval-mode in the 29 that follow, for every
  optimizer, engine and dropout draw.
\<close>

theorem Network_later_epochs_train_in_eval_mode:
  "\<exists>s. Network_training opt autograd
          (zero_init [256 * 784, 256, 128 * 256, 128, 64 * 128, 64, 10 * 64, 10]) st 30
          (\<lambda>e. [(blank_batch, d)]) (\<lambda>e. [blank_batch]) = Inr s
      \<and> map op_of (trace s) =
          [ZeroGradOp, ForwardOp TrainingStep True, BackwardOp, StepOp,
           ForwardOp Evaluation False]
          @ concat (replicate 29
              [ZeroGradOp, ForwardOp TrainingStep False, BackwardOp, StepOp,
               ForwardOp Evaluation False])"
proof -
  let ?init = "zero_init [256 * 784, 256, 128 * 256, 128, 64 * 128, 64, 10 * 64, 10]"
  let ?blk = "\<lambda>e::nat. [ZeroGradOp, ForwardOp TrainingStep (e = 0), BackwardOp, StepOp,
                         ForwardOp Evaluation False]"
  have vb: "\<forall>e<30. (\<lambda>e. [(blank_batch, d)]) e \<noteq> []
              \<and> list_all (\<lambda>b. valid_batch (fst b)) ((\<lambda>e. [(blank_batch, d)]) e)
              \<and> valid_testloader ((\<lambda>e. [blank_batch]) e)"
    by (simp add: valid_blank_batch valid_blank_testloader)
  from Network_training_ok [OF zero_init_lengths vb, of opt autograd st]
  obtain s where s: "Network_training opt autograd ?init st 30
      (\<lambda>e. [(blank_batch, d)]) (\<lambda>e. [blank_batch]) = Inr s"
    "map op_of (trace s) = concat (map ?blk [0..<30])"
    by auto
  have "[0..<30] = 0 # [1..<30]" by (simp add: upt_conv_Cons)
  moreover have "map ?blk [1..<30] = map (\<lambda>e. ?blk 1) [1..<30]"
    by (rule map_cong) auto
  moreover have "map (\<lambda>e::nat. ?blk 1) [1..<30] = replicate 29 (?blk 1)"
    by (simp add: map_replicate_const)
  ultimately have "concat (map ?blk [0..<30]) = ?blk 0 @ concat (replicate 29 (?blk 1))"
    by (simp only: list.map concat.simps)
  then show ?thesis using s by simp
qed

text \<open>
  C5. The validation block of the Classifier evaluates the first batch of the test loader
  only. With parameters that predict class 0 for every image and a test loader of two
  batches, labelled 0 and 1, the block reports the accuracy 1 while the fraction of matches
  over all examples of the sweep is 1/2.
\<close>

theorem Classifier_validation_one_batch:
  "(\<exists>s. Classifier_validation class0_session ordered_testloader = Inr s \<and> printed s = [1])
   \<and> sweep_accuracy (params class0_session) ordered_testloader = Inr (1 / 2)"
  by (simp add: Classifier_validation_def model_call_def print_value_def sweep_accuracy_def
      ordered_testloader_def class0_session_params class0_session_printed
      Classifier_forward_class0 blank_images_width bindE_def batch_accuracy_constant
      matches_constant argmax_class0 argmax_lsm_any)

text \<open>
  C8. Run twice on the same parameters, with the shuffled test loader yielding its two
  batches in the one order and then in the other, the validation block of the Classifier
  reports 1 and then 0.
\<close>

theorem Classifier_validation_twice_differs:
  "(\<exists>s. Classifier_validation class0_session ordered_testloader = Inr s \<and> printed s = [1])
   \<and> (\<exists>s. Classifier_validation class0_session (rev ordered_testloader) = Inr s
          \<and> printed s = [0])"
  by (simp add: Classifier_validation_def model_call_def print_value_def
      ordered_testloader_def class0_session_params class0_session_printed
      Classifier_forward_class0 blank_images_width bindE_def batch_accuracy_constant
      argmax_class0)

end
